theory Spec2Isabelle
  imports Main "HOL-Library.Char_ord" "HOL-Library.List_Lexorder" "HOL-Library.Multiset"
begin

section \<open>JavaScript values used by the standings aggregator\<close>

text \<open>
  The aggregator \<^verbatim>\<open>calculateTeamStats\<close> of \<^verbatim>\<open>src/server.js\<close> (lines 396-456) works on
  JavaScript numbers, strings, arrays and one plain object used as a dictionary.

  \<^item> A player name is a \<open>string\<close>; each \<open>char\<close> stands for one code unit, and the order of
    \<open>HOL-Library.List_Lexorder\<close> over \<open>HOL-Library.Char_ord\<close> is the code-unit order that the
    default \<^verbatim>\<open>Array.prototype.sort\<close> uses on strings.
  \<^item> A score is a whole number or is absent (\<^verbatim>\<open>undefined\<close>): \<open>int option\<close>.
  \<^item> An accumulated number is a whole number or \<^verbatim>\<open>NaN\<close>: adding \<^verbatim>\<open>undefined\<close> to a
    number gives \<^verbatim>\<open>NaN\<close>, and \<^verbatim>\<open>NaN\<close> absorbs every later addition and subtraction.
  \<^item> JavaScript numbers are doubles. A double holds every whole number of magnitude up to
    \<open>2^53\<close> exactly, and on such numbers, with such a result, \<^verbatim>\<open>+\<close> and \<^verbatim>\<open>-\<close> are the
    addition and subtraction of whole numbers: this is the range in which \<open>jadd\<close> and
    \<open>jsub\<close> below compute what the program computes. Beyond it the program rounds, and
    beyond \<^verbatim>\<open>Number.MAX_VALUE\<close> it yields \<^verbatim>\<open>Infinity\<close> (and \<^verbatim>\<open>Infinity - Infinity\<close> is
    \<^verbatim>\<open>NaN\<close>), which the whole numbers of the model do not follow. A statement about
    the values of sums and differences over all inputs therefore carries the hypothesis
    \<open>safeScores\<close>, which keeps every number of the call within the exact range.
\<close>

datatype jsnum = Num int | NaN

fun toNumber :: "int option \<Rightarrow> jsnum" where
  "toNumber (Some n) = Num n"
| "toNumber None = NaN"

text \<open>
  \<^verbatim>\<open>a + b\<close> and \<^verbatim>\<open>a - b\<close> on numbers. On whole numbers the result is the exact sum or
  difference; the doubles of the program agree with it as long as operands and result are
  of magnitude at most \<open>2^53\<close>, which \<open>safeScores\<close> guarantees for a whole call.
\<close>

fun jadd :: "jsnum \<Rightarrow> jsnum \<Rightarrow> jsnum" where
  "jadd (Num a) (Num b) = Num (a + b)"
| "jadd _ _ = NaN"

fun jsub :: "jsnum \<Rightarrow> jsnum \<Rightarrow> jsnum" where
  "jsub (Num a) (Num b) = Num (a - b)"
| "jsub _ _ = NaN"

text \<open>\<^verbatim>\<open>a > b\<close> on scores: false as soon as one side is \<^verbatim>\<open>undefined\<close>.\<close>

fun jgt :: "int option \<Rightarrow> int option \<Rightarrow> bool" where
  "jgt (Some a) (Some b) = (a > b)"
| "jgt _ _ = False"


text \<open>\<^verbatim>\<open>Array.prototype.join(',')\<close> on an array of strings.\<close>

fun join :: "string list \<Rightarrow> string" where
  "join [] = []"
| "join [x] = x"
| "join (x # y # ys) = x @ '','' @ join (y # ys)"

section \<open>Records of the data model\<close>

text \<open>
  Both schemas have \<^verbatim>\<open>userId: { type: String, required: true }\<close>: every stored
  document has an owner. A match document is as \<^verbatim>\<open>matchSchema\<close> declares it (lines
  346-355); \<^verbatim>\<open>date\<close> and the timestamps are never read by the aggregator and are left
  out.
\<close>

record owned =
  userId :: string

record match = owned +
  teamA :: "string list"
  teamB :: "string list"
  scoreA :: "int option"
  scoreB :: "int option"

text \<open>The accumulator object created at lines 405-413 and 418-426.\<close>

record stat =
  team :: "string list"
  wins :: int
  losses :: int
  draws :: int
  goalsFor :: jsnum
  goalsAgainst :: jsnum
  matches :: int

text \<open>The object built by the spread at lines 451-455.\<close>

record teamStat = stat +
  points :: int
  goalDifference :: jsnum

section \<open>The plain object \<^verbatim>\<open>teamStats\<close>\<close>

text \<open>
  \<^verbatim>\<open>const teamStats = {}\<close> is an ordinary object: it has own properties, kept in the
  order in which they were created, and it inherits from \<^verbatim>\<open>Object.prototype\<close>.
  \<open>ownKeys\<close> is the creation order, \<open>ownProps\<close> the own properties.
\<close>

record jsobject =
  ownKeys :: "string list"
  ownProps :: "string \<rightharpoonup> stat"

definition emptyObject :: jsobject where
  "emptyObject = \<lparr>ownKeys = [], ownProps = Map.empty\<rparr>"

text \<open>
  The property names that every ordinary object inherits from \<^verbatim>\<open>Object.prototype\<close>
  (ECMAScript, sections 20.1.3 and B.2.2). Each of them reads as a function or an object,
  so it is truthy.
\<close>

definition objectPrototypeKeys :: "string list" where
  "objectPrototypeKeys =
     [''constructor'', ''hasOwnProperty'', ''isPrototypeOf'', ''propertyIsEnumerable'',
      ''toLocaleString'', ''toString'', ''valueOf'', ''__proto__'',
      ''__defineGetter__'', ''__defineSetter__'', ''__lookupGetter__'', ''__lookupSetter__'']"

text \<open>
  Whether \<^verbatim>\<open>teamStats[k]\<close> is truthy: an own property holds an accumulator object, an
  inherited one a function or \<^verbatim>\<open>Object.prototype\<close> itself; anything else reads
  \<^verbatim>\<open>undefined\<close>.
\<close>

definition truthy :: "jsobject \<Rightarrow> string \<Rightarrow> bool" where
  "truthy T k \<longleftrightarrow> ownProps T k \<noteq> None \<or> k \<in> set objectPrototypeKeys"

text \<open>\<^verbatim>\<open>teamStats[k] = v\<close> for a key that is not an own property yet: appended last.\<close>

definition setProp :: "string \<Rightarrow> stat \<Rightarrow> jsobject \<Rightarrow> jsobject" where
  "setProp k v T =
     \<lparr>ownKeys = (if ownProps T k = None then ownKeys T @ [k] else ownKeys T),
      ownProps = (ownProps T)(k \<mapsto> v)\<rparr>"

text \<open>
  \<^verbatim>\<open>teamStats[k].field = f(teamStats[k].field)\<close>. When \<open>k\<close> is an own property the
  accumulator is updated. Otherwise \<^verbatim>\<open>teamStats[k]\<close> is the object inherited under that
  name, the write lands on that object, and \<^verbatim>\<open>teamStats\<close> keeps its own properties as
  they are. (The loop body reads \<^verbatim>\<open>teamStats[k]\<close> only after the two guards at lines 404
  and 417, so the key is an own property or an inherited name by then.)
\<close>

definition modify :: "string \<Rightarrow> (stat \<Rightarrow> stat) \<Rightarrow> jsobject \<Rightarrow> jsobject" where
  "modify k f T =
     (case ownProps T k of
        Some s \<Rightarrow> T\<lparr>ownProps := (ownProps T)(k \<mapsto> f s)\<rparr>
      | None \<Rightarrow> T)"

text \<open>
  \<^verbatim>\<open>Object.values\<close> lists the own properties: first the keys that are array indices
  (canonical decimal numerals below \<open>2^32 - 1\<close>) in ascending numeric order, then all other
  keys in creation order.
\<close>

definition isDigit :: "char \<Rightarrow> bool" where
  "isDigit c \<longleftrightarrow> CHR ''0'' \<le> c \<and> c \<le> CHR ''9''"

definition digitsValue :: "string \<Rightarrow> int" where
  "digitsValue k = foldl (\<lambda>n c. 10 * n + (of_char c - 48)) 0 k"

definition isArrayIndex :: "string \<Rightarrow> bool" where
  "isArrayIndex k \<longleftrightarrow>
     k \<noteq> [] \<and> list_all isDigit k \<and> (k = ''0'' \<or> hd k \<noteq> CHR ''0'')
     \<and> digitsValue k < 4294967295"

definition ownPropertyKeys :: "string list \<Rightarrow> string list" where
  "ownPropertyKeys ks =
     sort_key digitsValue (filter isArrayIndex ks) @ filter (\<lambda>k. \<not> isArrayIndex k) ks"

definition objectValues :: "jsobject \<Rightarrow> stat list" where
  "objectValues T = List.map_filter (ownProps T) (ownPropertyKeys (ownKeys T))"

section \<open>\<^verbatim>\<open>Array.prototype.sort\<close> with a comparator\<close>

text \<open>
  The comparator of line 455:
  \<^verbatim>\<open>(a, b) => b.points - a.points || b.goalDifference - a.goalDifference\<close>.
  \<open>points\<close> is always a whole number, so the left operand is falsy exactly when it is 0.
\<close>

definition compareStats :: "teamStat \<Rightarrow> teamStat \<Rightarrow> jsnum" where
  "compareStats a b =
     (if points b - points a \<noteq> 0 then Num (points b - points a)
      else jsub (goalDifference b) (goalDifference a))"

text \<open>
  A comparator result is positive when the first argument has to come after the second;
  \<^verbatim>\<open>NaN\<close> counts as 0.
\<close>

fun positive :: "jsnum \<Rightarrow> bool" where
  "positive (Num n) = (n > 0)"
| "positive NaN = False"

text \<open>
  The sort is stable (ECMAScript 2019). For a consistent comparator every stable sort
  returns the same array, here computed by insertion: an element goes behind all elements
  it must follow and before the first one it need not follow.
\<close>

fun insertBy :: "('a \<Rightarrow> 'a \<Rightarrow> jsnum) \<Rightarrow> 'a \<Rightarrow> 'a list \<Rightarrow> 'a list" where
  "insertBy cmp x [] = [x]"
| "insertBy cmp x (y # ys) =
     (if positive (cmp x y) then y # insertBy cmp x ys else x # y # ys)"

fun sortBy :: "('a \<Rightarrow> 'a \<Rightarrow> jsnum) \<Rightarrow> 'a list \<Rightarrow> 'a list" where
  "sortBy cmp [] = []"
| "sortBy cmp (x # xs) = insertBy cmp x (sortBy cmp xs)"

section \<open>\<^verbatim>\<open>calculateTeamStats\<close>\<close>

text \<open>The object literal of lines 405-413 (and 418-426).\<close>

definition newStat :: "string list \<Rightarrow> stat" where
  "newStat t =
     \<lparr>team = t, wins = 0, losses = 0, draws = 0,
      goalsFor = Num 0, goalsAgainst = Num 0, matches = 0\<rparr>"

text \<open>
  Lines 404-414 for team A and 417-427 for team B: the guard
  \<^verbatim>\<open>if (!teamStats[key])\<close> and the assignment of a fresh accumulator.
\<close>

definition ensureTeam :: "string \<Rightarrow> string list \<Rightarrow> jsobject \<Rightarrow> jsobject" where
  "ensureTeam key t T = (if \<not> truthy T key then setProp key (newStat t) T else T)"

text \<open>Lines 429-448, the statistics update, statement by statement.\<close>

definition updateStats :: "string \<Rightarrow> string \<Rightarrow> match \<Rightarrow> jsobject \<Rightarrow> jsobject" where
  "updateStats teamAKey teamBKey m T2 =
     (let T3 = modify teamAKey (\<lambda>s. s\<lparr>matches := matches s + 1\<rparr>) T2;
          T4 = modify teamBKey (\<lambda>s. s\<lparr>matches := matches s + 1\<rparr>) T3;
          T5 = modify teamAKey (\<lambda>s. s\<lparr>goalsFor := jadd (goalsFor s) (toNumber (scoreA m))\<rparr>) T4;
          T6 = modify teamAKey
                 (\<lambda>s. s\<lparr>goalsAgainst := jadd (goalsAgainst s) (toNumber (scoreB m))\<rparr>) T5;
          T7 = modify teamBKey (\<lambda>s. s\<lparr>goalsFor := jadd (goalsFor s) (toNumber (scoreB m))\<rparr>) T6;
          T8 = modify teamBKey
                 (\<lambda>s. s\<lparr>goalsAgainst := jadd (goalsAgainst s) (toNumber (scoreA m))\<rparr>) T7
      in if jgt (scoreA m) (scoreB m) then
           modify teamBKey (\<lambda>s. s\<lparr>losses := losses s + 1\<rparr>)
             (modify teamAKey (\<lambda>s. s\<lparr>wins := wins s + 1\<rparr>) T8)
         else if jgt (scoreB m) (scoreA m) then
           modify teamBKey (\<lambda>s. s\<lparr>wins := wins s + 1\<rparr>)
             (modify teamAKey (\<lambda>s. s\<lparr>losses := losses s + 1\<rparr>) T8)
         else
           modify teamBKey (\<lambda>s. s\<lparr>draws := draws s + 1\<rparr>)
             (modify teamAKey (\<lambda>s. s\<lparr>draws := draws s + 1\<rparr>) T8))"

text \<open>
  The body of the \<^verbatim>\<open>forEach\<close> callback, lines 400-448.
  \<^verbatim>\<open>match.teamA.sort()\<close> sorts the array of the match in place and returns that same
  array, so the body returns the match as it is afterwards together with \<^verbatim>\<open>teamStats\<close>,
  and \<^verbatim>\<open>team: match.teamA\<close> stores the array that has just been sorted.
\<close>

definition forEachBody :: "match \<Rightarrow> jsobject \<Rightarrow> match \<times> jsobject" where
  "forEachBody m0 T0 =
     (let m1 = m0\<lparr>teamA := sort (teamA m0)\<rparr>;
          teamAKey = join (teamA m1);
          m = m1\<lparr>teamB := sort (teamB m1)\<rparr>;
          teamBKey = join (teamB m);
          T1 = ensureTeam teamAKey (teamA m) T0;
          T2 = ensureTeam teamBKey (teamB m) T1
      in (m, updateStats teamAKey teamBKey m T2))"

text \<open>
  \<^verbatim>\<open>matches.forEach(...)\<close>: the matches in array order, threading \<^verbatim>\<open>teamStats\<close>;
  the first component is the array of matches as the loop leaves it.
\<close>

fun forEach :: "match list \<Rightarrow> jsobject \<Rightarrow> match list \<times> jsobject" where
  "forEach [] T = ([], T)"
| "forEach (m # ms) T =
     (case forEachBody m T of (m', T') \<Rightarrow>
        (case forEach ms T' of (ms', T'') \<Rightarrow> (m' # ms', T'')))"

text \<open>The arrow function of lines 451-455: the spread plus the two derived fields.\<close>

definition withDerived :: "stat \<Rightarrow> teamStat" where
  "withDerived s =
     \<lparr>team = team s, wins = wins s, losses = losses s, draws = draws s,
      goalsFor = goalsFor s, goalsAgainst = goalsAgainst s, matches = matches s,
      points = (wins s * 3) + draws s,
      goalDifference = jsub (goalsFor s) (goalsAgainst s)\<rparr>"

text \<open>
  The whole call: what it leaves in the array it was given, and what it returns.
\<close>

definition calculateTeamStats_run :: "match list \<Rightarrow> match list \<times> teamStat list" where
  "calculateTeamStats_run ms =
     (case forEach ms emptyObject of
        (ms', teamStats) \<Rightarrow>
          (ms', sortBy compareStats (map withDerived (objectValues teamStats))))"

definition calculateTeamStats :: "match list \<Rightarrow> teamStat list" where
  "calculateTeamStats ms = snd (calculateTeamStats_run ms)"

definition inputAfter :: "match list \<Rightarrow> match list" where
  "inputAfter ms = fst (calculateTeamStats_run ms)"

section \<open>The group routes\<close>

text \<open>
  A group document as \<^verbatim>\<open>groupSchema\<close> declares it (\<^verbatim>\<open>src/server.js\<close>, lines 39-48):
  \<open>docId\<close> is the \<^verbatim>\<open>_id\<close> that the database assigns, a member is a name with its
  \<^verbatim>\<open>active\<close> flag. The collection is the list of its documents; the database keeps
  \<^verbatim>\<open>_id\<close> unique. The answers with status 400 and 500, given when the database or a
  cast fails, are not modelled.
\<close>

type_synonym member = "string \<times> bool"

record group = owned +
  docId :: nat
  name :: string
  members :: "member list"

text \<open>The fields that the JSON body of a request may carry.\<close>

record groupBody =
  bodyName :: "string option"
  bodyMembers :: "member list option"
  bodyUserId :: "string option"

datatype response = Json group | JsonList "group list" | Message string | NotFound

text \<open>\<^verbatim>\<open>doc.save()\<close> writes the document back under its \<^verbatim>\<open>_id\<close>.\<close>

definition save :: "group \<Rightarrow> group list \<Rightarrow> group list" where
  "save g store = map (\<lambda>h. if docId h = docId g then g else h) store"

definition remove :: "group \<Rightarrow> group list \<Rightarrow> group list" where
  "remove g store = filter (\<lambda>h. docId h \<noteq> docId g) store"

text \<open>
  The authenticated routes of \<^verbatim>\<open>src/server.js\<close>; \<open>sub\<close> is \<^verbatim>\<open>req.user.sub\<close>, the
  identity that \<^verbatim>\<open>authenticateToken\<close> reads from the bearer token.

  \<^verbatim>\<open>app.get('/api/groups')\<close>, lines 84-92: \<^verbatim>\<open>Group.find({ userId })\<close>.
\<close>

definition getGroups :: "string \<Rightarrow> group list \<Rightarrow> response" where
  "getGroups sub store = JsonList (filter (\<lambda>g. userId g = sub) store)"

text \<open>
  \<^verbatim>\<open>app.put('/api/groups/:id')\<close>, lines 109-129:
  \<^verbatim>\<open>Group.findOne({ _id: req.params.id, userId: req.user.sub })\<close>, status 404 when there
  is none, else \<^verbatim>\<open>group.name = req.body.name || group.name\<close> (an empty name is falsy),
  \<^verbatim>\<open>group.members = req.body.members || group.members\<close>, and \<^verbatim>\<open>group.save()\<close>.
\<close>

definition putGroup ::
  "string \<Rightarrow> nat \<Rightarrow> groupBody \<Rightarrow> group list \<Rightarrow> group list \<times> response" where
  "putGroup sub ident body store =
     (case List.find (\<lambda>g. docId g = ident \<and> userId g = sub) store of
        None \<Rightarrow> (store, NotFound)
      | Some g \<Rightarrow>
          (let g1 = g\<lparr>name := (case bodyName body of
                                  Some n \<Rightarrow> if n \<noteq> [] then n else name g
                                | None \<Rightarrow> name g)\<rparr>;
               g2 = g1\<lparr>members := (case bodyMembers body of
                                      Some ms \<Rightarrow> ms
                                    | None \<Rightarrow> members g1)\<rparr>
           in (save g2 store, Json g2)))"

text \<open>
  \<^verbatim>\<open>app.delete('/api/groups/:id')\<close>, lines 131-146:
  \<^verbatim>\<open>Group.findOneAndDelete({ _id: req.params.id, userId: req.user.sub })\<close>.
\<close>

definition deleteGroup :: "string \<Rightarrow> nat \<Rightarrow> group list \<Rightarrow> group list \<times> response" where
  "deleteGroup sub ident store =
     (case List.find (\<lambda>g. docId g = ident \<and> userId g = sub) store of
        None \<Rightarrow> (store, NotFound)
      | Some g \<Rightarrow> (remove g store, Message ''Grupo deletado''))"

text \<open>
  The routes of \<^verbatim>\<open>src/unnamed/part_000\<close>. That file has no
  \<^verbatim>\<open>authenticateToken\<close>: a request carries no caller identity, so the handlers take none.

  \<^verbatim>\<open>app.put('/api/groups/:id')\<close>, lines 68-82:
  \<^verbatim>\<open>Group.findByIdAndUpdate(req.params.id, req.body, { new: true })\<close> sets every field
  that the body carries, \<^verbatim>\<open>userId\<close> included, on the document with that \<^verbatim>\<open>_id\<close>.
\<close>

definition applyUpdate :: "groupBody \<Rightarrow> group \<Rightarrow> group" where
  "applyUpdate body g =
     g\<lparr>name := (case bodyName body of Some n \<Rightarrow> n | None \<Rightarrow> name g),
       members := (case bodyMembers body of Some ms \<Rightarrow> ms | None \<Rightarrow> members g),
       userId := (case bodyUserId body of Some u \<Rightarrow> u | None \<Rightarrow> userId g)\<rparr>"

definition putGroup_part000 ::
  "nat \<Rightarrow> groupBody \<Rightarrow> group list \<Rightarrow> group list \<times> response" where
  "putGroup_part000 ident body store =
     (case List.find (\<lambda>g. docId g = ident) store of
        None \<Rightarrow> (store, NotFound)
      | Some g \<Rightarrow> (save (applyUpdate body g) store, Json (applyUpdate body g)))"

text \<open>
  \<^verbatim>\<open>app.delete('/api/groups/:id')\<close>, lines 84-94:
  \<^verbatim>\<open>Group.findByIdAndDelete(req.params.id)\<close>.
\<close>

definition deleteGroup_part000 :: "nat \<Rightarrow> group list \<Rightarrow> group list \<times> response" where
  "deleteGroup_part000 ident store =
     (case List.find (\<lambda>g. docId g = ident) store of
        None \<Rightarrow> (store, NotFound)
      | Some g \<Rightarrow> (remove g store, Message ''Grupo deletado''))"

section \<open>Auxiliary notions for the proofs\<close>

text \<open>
  One side of a match as the loop body sees it: the roster after the in-place sort, the
  side's own score and the opponent's score.
\<close>

type_synonym side = "string list \<times> int option \<times> int option"

definition sidesOf :: "match \<Rightarrow> side list" where
  "sidesOf m = [(sort (teamA m), scoreA m, scoreB m), (sort (teamB m), scoreB m, scoreA m)]"

definition allSides :: "match list \<Rightarrow> side list" where
  "allSides ms = concat (map sidesOf ms)"

text \<open>Everything lines 430-448 do to the accumulator of one side, in one step.\<close>

definition addSide :: "int option \<Rightarrow> int option \<Rightarrow> stat \<Rightarrow> stat" where
  "addSide own opp s =
     s\<lparr>matches := matches s + 1,
       goalsFor := jadd (goalsFor s) (toNumber own),
       goalsAgainst := jadd (goalsAgainst s) (toNumber opp),
       wins := wins s + (if jgt own opp then 1 else 0),
       losses := losses s + (if jgt opp own then 1 else 0),
       draws := draws s + (if \<not> jgt own opp \<and> \<not> jgt opp own then 1 else 0)\<rparr>"

definition sideUpd :: "side \<Rightarrow> jsobject \<Rightarrow> jsobject" where
  "sideUpd sd T =
     (case sd of (t, own, opp) \<Rightarrow> modify (join t) (addSide own opp) (ensureTeam (join t) t T))"

definition applySides :: "side list \<Rightarrow> stat \<Rightarrow> stat" where
  "applySides sds s = fold (\<lambda>sd. case sd of (t, own, opp) \<Rightarrow> addSide own opp) sds s"

definition sidesFor :: "string \<Rightarrow> side list \<Rightarrow> side list" where
  "sidesFor k sds = filter (\<lambda>sd. join (fst sd) = k) sds"

text \<open>The own properties are exactly the listed keys, each listed once.\<close>

definition wellKeyed :: "jsobject \<Rightarrow> bool" where
  "wellKeyed T \<longleftrightarrow> distinct (ownKeys T) \<and> set (ownKeys T) = dom (ownProps T)"

text \<open>The scores of a match list are all present, as the schema requires of stored matches.\<close>

definition scoresPresent :: "match list \<Rightarrow> bool" where
  "scoresPresent ms \<longleftrightarrow> list_all (\<lambda>m. scoreA m \<noteq> None \<and> scoreB m \<noteq> None) ms"

text \<open>
  The scores of a match list are within the exact range of doubles: every score is present
  and not negative (\<^verbatim>\<open>min: 0\<close> in the schema), and all scores of the list together add up
  to at most \<open>2^52\<close>. Every \<^verbatim>\<open>goalsFor\<close> and \<^verbatim>\<open>goalsAgainst\<close>, at every moment of the
  loop, is then a whole number between 0 and \<open>2^52\<close>, every \<^verbatim>\<open>goalDifference\<close> and every
  difference taken by the comparator is of magnitude at most \<open>2^53\<close>, and the doubles of
  the program hold all of them exactly. (The counters and \<^verbatim>\<open>points\<close> are bounded by six
  times the length of the array, which is below \<open>2^32\<close>.)
\<close>

fun nonnegScore :: "int option \<Rightarrow> bool" where
  "nonnegScore (Some a) = (0 \<le> a)"
| "nonnegScore None = False"

fun scoreValue :: "int option \<Rightarrow> int" where
  "scoreValue (Some a) = a"
| "scoreValue None = 0"

definition scoreTotal :: "match list \<Rightarrow> int" where
  "scoreTotal ms = sum_list (map (\<lambda>m. scoreValue (scoreA m) + scoreValue (scoreB m)) ms)"

definition safeScores :: "match list \<Rightarrow> bool" where
  "safeScores ms \<longleftrightarrow>
     list_all (\<lambda>m. nonnegScore (scoreA m) \<and> nonnegScore (scoreB m)) ms
     \<and> scoreTotal ms \<le> 4503599627370496"

text \<open>
  The team identity key of a roster as it is stored (lines 400-401: sort, then join), and
  the rosters of a match list in the order in which the loop meets them.
\<close>

definition teamKey :: "string list \<Rightarrow> string" where
  "teamKey r = join (sort r)"

definition rosters :: "match list \<Rightarrow> string list list" where
  "rosters ms = concat (map (\<lambda>m. [teamA m, teamB m]) ms)"

text \<open>Two stored matches between the same two teams, the rosters written in different orders.\<close>

definition exampleMatches :: "match list" where
  "exampleMatches =
     [\<lparr>userId = ''u1'', teamA = [''Bob'', ''Alice''], teamB = [''Dan'', ''Cara''],
       scoreA = Some 3, scoreB = Some 1\<rparr>,
      \<lparr>userId = ''u1'', teamA = [''Cara'', ''Dan''], teamB = [''Alice'', ''Bob''],
       scoreA = Some 2, scoreB = Some 2\<rparr>]"


definition numericStat :: "stat \<Rightarrow> bool" where
  "numericStat s \<longleftrightarrow> goalsFor s \<noteq> NaN \<and> goalsAgainst s \<noteq> NaN"

definition sidesPresent :: "side list \<Rightarrow> bool" where
  "sidesPresent sds \<longleftrightarrow> list_all (\<lambda>sd. fst (snd sd) \<noteq> None \<and> snd (snd sd) \<noteq> None) sds"

text \<open>A stored match whose \<^verbatim>\<open>scoreA\<close> is absent.\<close>

definition exampleAbsent :: "match list" where
  "exampleAbsent =
     [\<lparr>userId = ''u1'', teamA = [''Ana''], teamB = [''Bia''], scoreA = None, scoreB = Some 1\<rparr>]"

text \<open>\<^verbatim>\<open>xs.reduce((a, x) => a + x, 0)\<close>: the sum of a column of the returned array.\<close>

definition total :: "jsnum list \<Rightarrow> jsnum" where
  "total xs = foldl jadd (Num 0) xs"

text \<open>The own and the opponent's score of a side, and how the side ended.\<close>

definition ownScore :: "side \<Rightarrow> int option" where
  "ownScore sd = fst (snd sd)"

definition oppScore :: "side \<Rightarrow> int option" where
  "oppScore sd = snd (snd sd)"

definition won :: "side \<Rightarrow> bool" where
  "won sd \<longleftrightarrow> jgt (ownScore sd) (oppScore sd)"

definition lost :: "side \<Rightarrow> bool" where
  "lost sd \<longleftrightarrow> jgt (oppScore sd) (ownScore sd)"

definition drew :: "side \<Rightarrow> bool" where
  "drew sd \<longleftrightarrow> \<not> won sd \<and> \<not> lost sd"

text \<open>The whole number held by a JavaScript number that is not \<^verbatim>\<open>NaN\<close>.\<close>

definition intOf :: "jsnum \<Rightarrow> int" where
  "intOf x = (case x of Num n \<Rightarrow> n | NaN \<Rightarrow> 0)"

text \<open>No roster of the match list has a key that names an inherited property.\<close>

definition inheritedFree :: "match list \<Rightarrow> bool" where
  "inheritedFree ms \<longleftrightarrow> list_all (\<lambda>r. teamKey r \<notin> set objectPrototypeKeys) (rosters ms)"

section \<open>The loop body, one side at a time\<close>

lemma ownKeys_modify [simp]: "ownKeys (modify k f T) = ownKeys T"
  by (simp add: modify_def split: option.splits)

lemma ownProps_modify [simp]:
  "ownProps (modify k f T) k' = (if k' = k then map_option f (ownProps T k) else ownProps T k')"
  by (simp add: modify_def split: option.splits)

lemma ownKeys_setProp [simp]:
  "ownKeys (setProp k v T) = (if ownProps T k = None then ownKeys T @ [k] else ownKeys T)"
  by (simp add: setProp_def)

lemma ownProps_setProp [simp]:
  "ownProps (setProp k v T) k' = (if k' = k then Some v else ownProps T k')"
  by (simp add: setProp_def)

lemma truthy_modify [simp]: "truthy (modify k f T) k' = truthy T k'"
  by (simp add: truthy_def)

lemma truthy_ensureTeam [simp]: "truthy (ensureTeam k t T) k"
  by (simp add: ensureTeam_def truthy_def)

text \<open>
  After the two guards \<^verbatim>\<open>teamStats[teamAKey]\<close> and \<^verbatim>\<open>teamStats[teamBKey]\<close> are objects,
  so no statement of the update reads a field of \<^verbatim>\<open>undefined\<close>: the loop body cannot
  throw.
\<close>

lemma keys_truthy_after_guards:
  "truthy (ensureTeam kB tB (ensureTeam kA tA T)) kA
   \<and> truthy (ensureTeam kB tB (ensureTeam kA tA T)) kB"
  by (auto simp: ensureTeam_def truthy_def)

lemma jsobject_eqI:
  fixes T T' :: jsobject
  assumes "ownKeys T = ownKeys T'" and "\<And>k. ownProps T k = ownProps T' k"
  shows "T = T'"
proof -
  have "ownProps T = ownProps T'" using assms(2) by (rule ext)
  with assms(1) show ?thesis by simp
qed

lemma jgt_asym: "jgt a b \<Longrightarrow> \<not> jgt b a"
  by (cases a; cases b) auto

text \<open>
  The nine statements of the update touch two accumulators field by field; together they
  are one \<open>addSide\<close> for team A followed by one for team B.
\<close>

lemma updateStats_eq:
  "updateStats kA kB m T =
     modify kB (addSide (scoreB m) (scoreA m)) (modify kA (addSide (scoreA m) (scoreB m)) T)"
proof (rule jsobject_eqI)
  show "ownKeys (updateStats kA kB m T) =
        ownKeys (modify kB (addSide (scoreB m) (scoreA m))
                   (modify kA (addSide (scoreA m) (scoreB m)) T))"
    by (simp add: updateStats_def Let_def)
next
  fix k
  show "ownProps (updateStats kA kB m T) k =
        ownProps (modify kB (addSide (scoreB m) (scoreA m))
                    (modify kA (addSide (scoreA m) (scoreB m)) T)) k"
  proof (cases "ownProps T k")
    case None
    then show ?thesis
      by (cases "k = kA"; cases "k = kB") (simp_all add: updateStats_def Let_def)
  next
    case (Some s)
    then show ?thesis
      by (cases "k = kA"; cases "k = kB";
          cases "jgt (scoreA m) (scoreB m)"; cases "jgt (scoreB m) (scoreA m)")
         (simp_all add: updateStats_def Let_def addSide_def jgt_asym)
  qed
qed

lemma ensureTeam_modify:
  "truthy T k \<Longrightarrow> ensureTeam k' t (modify k f T) = modify k f (ensureTeam k' t T)"
  by (rule jsobject_eqI) (auto simp: ensureTeam_def truthy_def)

lemma forEachBody_fst:
  "fst (forEachBody m T) = m\<lparr>teamA := sort (teamA m), teamB := sort (teamB m)\<rparr>"
  by (simp add: forEachBody_def Let_def)

lemma forEachBody_snd:
  "snd (forEachBody m T) = fold sideUpd (sidesOf m) T"
  by (simp add: forEachBody_def Let_def sideUpd_def sidesOf_def updateStats_eq ensureTeam_modify)

lemma forEach_fst:
  "fst (forEach ms T) = map (\<lambda>m. m\<lparr>teamA := sort (teamA m), teamB := sort (teamB m)\<rparr>) ms"
proof (induction ms arbitrary: T)
  case Nil
  show ?case by simp
next
  case (Cons m ms)
  obtain m' T' where b: "forEachBody m T = (m', T')" by (cases "forEachBody m T")
  obtain ms' T'' where r: "forEach ms T' = (ms', T'')" by (cases "forEach ms T'")
  have "m' = m\<lparr>teamA := sort (teamA m), teamB := sort (teamB m)\<rparr>"
    using forEachBody_fst [of m T] b by simp
  moreover have "ms' = map (\<lambda>m. m\<lparr>teamA := sort (teamA m), teamB := sort (teamB m)\<rparr>) ms"
    using Cons.IH [of T'] r by simp
  ultimately show ?case using b r by simp
qed

lemma forEach_snd: "snd (forEach ms T) = fold sideUpd (allSides ms) T"
proof (induction ms arbitrary: T)
  case Nil
  show ?case by (simp add: allSides_def)
next
  case (Cons m ms)
  obtain m' T' where b: "forEachBody m T = (m', T')" by (cases "forEachBody m T")
  obtain ms' T'' where r: "forEach ms T' = (ms', T'')" by (cases "forEach ms T'")
  have "T' = fold sideUpd (sidesOf m) T"
    using forEachBody_snd [of m T] b by simp
  moreover have "T'' = fold sideUpd (allSides ms) T'"
    using Cons.IH [of T'] r by simp
  ultimately show ?case using b r by (simp add: allSides_def)
qed

section \<open>What the loop leaves in \<^verbatim>\<open>teamStats\<close>\<close>

lemma ownProps_sideUpd:
  "ownProps (sideUpd (t, own, opp) T) k =
     (if k = join t then
        (case ownProps T k of
           Some s \<Rightarrow> Some (addSide own opp s)
         | None \<Rightarrow> if k \<in> set objectPrototypeKeys then None
                   else Some (addSide own opp (newStat t)))
      else ownProps T k)"
  by (auto simp: sideUpd_def ensureTeam_def truthy_def split: option.splits)

lemma ownKeys_sideUpd:
  "ownKeys (sideUpd (t, own, opp) T) =
     (if ownProps T (join t) = None \<and> join t \<notin> set objectPrototypeKeys
      then ownKeys T @ [join t] else ownKeys T)"
  by (auto simp: sideUpd_def ensureTeam_def truthy_def split: option.splits)

lemma wellKeyed_sideUpd: "wellKeyed T \<Longrightarrow> wellKeyed (sideUpd sd T)"
  by (cases sd)
     (auto simp: wellKeyed_def ownKeys_sideUpd ownProps_sideUpd dom_def
           split: option.splits if_splits)

lemma wellKeyed_fold: "wellKeyed T \<Longrightarrow> wellKeyed (fold sideUpd sds T)"
  by (induction sds arbitrary: T) (simp_all add: wellKeyed_sideUpd)

lemma wellKeyed_empty: "wellKeyed emptyObject"
  by (simp add: wellKeyed_def emptyObject_def)

lemma applySides_Nil [simp]: "applySides [] s = s"
  by (simp add: applySides_def)

lemma applySides_Cons [simp]:
  "applySides ((t, own, opp) # sds) s = applySides sds (addSide own opp s)"
  by (simp add: applySides_def)

text \<open>
  The accumulator found under a key after the loop: the one that was there, or a fresh one
  made from the first side with that key, with every side of that key added to it. A key
  that names an inherited property never becomes an own property.
\<close>

lemma ownProps_fold:
  "ownProps (fold sideUpd sds T) k =
     (case ownProps T k of
        Some s \<Rightarrow> Some (applySides (sidesFor k sds) s)
      | None \<Rightarrow>
          if k \<in> set objectPrototypeKeys then None
          else (case sidesFor k sds of
                  [] \<Rightarrow> None
                | sd # rest \<Rightarrow> Some (applySides (sd # rest) (newStat (fst sd)))))"
proof (induction sds arbitrary: T)
  case Nil
  show ?case by (simp add: sidesFor_def split: option.splits)
next
  case (Cons sd sds)
  obtain t own opp where sd: "sd = (t, own, opp)" by (cases sd)
  show ?case
    unfolding sd
    by (simp add: Cons.IH ownProps_sideUpd)
       (auto simp: sidesFor_def split: option.splits list.splits)
qed

section \<open>The returned array\<close>

lemma mset_insertBy: "mset (insertBy cmp x ys) = add_mset x (mset ys)"
  by (induction ys) auto

lemma mset_sortBy: "mset (sortBy cmp xs) = mset xs"
  by (induction xs) (auto simp: mset_insertBy)

lemma set_sortBy: "set (sortBy cmp xs) = set xs"
  by (metis mset_sortBy set_mset_mset)

lemma length_sortBy: "length (sortBy cmp xs) = length xs"
  by (metis mset_sortBy size_mset)

lemma mset_ownPropertyKeys: "mset (ownPropertyKeys ks) = mset ks"
  by (simp add: ownPropertyKeys_def)

lemma objectValues_wellKeyed:
  assumes "wellKeyed T"
  shows "mset (objectValues T) = image_mset (\<lambda>k. the (ownProps T k)) (mset (ownKeys T))"
proof -
  let ?ks = "ownPropertyKeys (ownKeys T)"
  have m: "mset ?ks = mset (ownKeys T)" by (rule mset_ownPropertyKeys)
  then have "set ?ks = set (ownKeys T)" by (metis set_mset_mset)
  with assms have "\<forall>k\<in>set ?ks. ownProps T k \<noteq> None" by (auto simp: wellKeyed_def)
  then have "filter (\<lambda>k. ownProps T k \<noteq> None) ?ks = ?ks" by (rule filter_True)
  then have "objectValues T = map (\<lambda>k. the (ownProps T k)) ?ks"
    by (simp add: objectValues_def List.map_filter_def comp_def)
  then have "mset (objectValues T) = image_mset (\<lambda>k. the (ownProps T k)) (mset ?ks)"
    by (simp only: mset_map)
  with m show ?thesis by (simp only:)
qed

lemma set_objectValues:
  assumes "wellKeyed T"
  shows "set (objectValues T) = ran (ownProps T)"
proof -
  have "set (objectValues T) = (\<lambda>k. the (ownProps T k)) ` set (ownKeys T)"
    using objectValues_wellKeyed [OF assms] by (metis set_image_mset set_mset_mset)
  also have "\<dots> = ran (ownProps T)"
    using assms by (force simp: wellKeyed_def ran_def dom_def)
  finally show ?thesis .
qed

lemma calculateTeamStats_eq:
  "calculateTeamStats ms =
     sortBy compareStats (map withDerived (objectValues (fold sideUpd (allSides ms) emptyObject)))"
  using forEach_snd [of ms emptyObject]
  by (cases "forEach ms emptyObject") (simp add: calculateTeamStats_def calculateTeamStats_run_def)

lemma inputAfter_eq:
  "inputAfter ms = map (\<lambda>m. m\<lparr>teamA := sort (teamA m), teamB := sort (teamB m)\<rparr>) ms"
  using forEach_fst [of ms emptyObject]
  by (cases "forEach ms emptyObject") (simp add: inputAfter_def calculateTeamStats_run_def)

section \<open>Evaluating a call on a given array\<close>

lemma ownProps_emptyObject [simp]: "ownProps emptyObject k = None"
  by (simp add: emptyObject_def)

lemma ownKeys_emptyObject [simp]: "ownKeys emptyObject = []"
  by (simp add: emptyObject_def)

lemmas eval_simps =
  calculateTeamStats_eq allSides_def sidesOf_def objectValues_def ownPropertyKeys_def
  List.map_filter_def ownKeys_sideUpd ownProps_sideUpd objectPrototypeKeys_def
  isArrayIndex_def isDigit_def digitsValue_def withDerived_def compareStats_def
  addSide_def newStat_def

lemma exampleMatches_result:
  "calculateTeamStats exampleMatches =
     [\<lparr>team = [''Alice'', ''Bob''], wins = 1, losses = 0, draws = 1,
       goalsFor = Num 5, goalsAgainst = Num 3, matches = 2,
       points = 4, goalDifference = Num 2\<rparr>,
      \<lparr>team = [''Cara'', ''Dan''], wins = 0, losses = 1, draws = 1,
       goalsFor = Num 3, goalsAgainst = Num 5, matches = 2,
       points = 1, goalDifference = Num (- 2)\<rparr>]"
  by (simp add: exampleMatches_def eval_simps)

section \<open>Derived fields\<close>

text \<open>
  Claim C3. For every input match list, every entry returned by
  \<^verbatim>\<open>calculateTeamStats\<close> satisfies \<open>points = 3 * wins + draws\<close> and
  \<open>goalDifference = goalsFor - goalsAgainst\<close>, the subtraction being the one of JavaScript
  numbers.
\<close>

theorem derived_fields:
  "\<forall>s \<in> set (calculateTeamStats ms).
     points s = 3 * wins s + draws s \<and> goalDifference s = jsub (goalsFor s) (goalsAgainst s)"
  by (auto simp: calculateTeamStats_eq set_sortBy withDerived_def)

theorem derived_fields_witness:
  "\<lparr>team = [''Alice'', ''Bob''], wins = 1, losses = 0, draws = 1,
    goalsFor = Num 5, goalsAgainst = Num 3, matches = 2,
    points = 4, goalDifference = Num 2\<rparr> \<in> set (calculateTeamStats exampleMatches)
   \<and> (4::int) = 3 * 1 + 1 \<and> Num 2 = jsub (Num 5) (Num 3)"
proof -
  let ?e = "\<lparr>team = [''Alice'', ''Bob''], wins = 1, losses = 0, draws = 1,
             goalsFor = Num 5, goalsAgainst = Num 3, matches = 2,
             points = 4, goalDifference = Num 2\<rparr>"
  have mem: "?e \<in> set (calculateTeamStats exampleMatches)"
    by (simp add: exampleMatches_result)
  from derived_fields [of exampleMatches] mem
  have "points ?e = 3 * wins ?e + draws ?e
        \<and> goalDifference ?e = jsub (goalsFor ?e) (goalsAgainst ?e)"
    by (rule bspec)
  with mem show ?thesis by simp
qed

section \<open>Order of the returned array\<close>

lemma jsnum_not_NaN: "x \<noteq> NaN \<longleftrightarrow> (\<exists>n. x = Num n)"
  by (cases x) auto







lemma numericStat_addSide:
  "numericStat s \<Longrightarrow> own \<noteq> None \<Longrightarrow> opp \<noteq> None \<Longrightarrow> numericStat (addSide own opp s)"
  by (auto simp: numericStat_def addSide_def jsnum_not_NaN)

lemma numericStat_applySides:
  "sidesPresent sds \<Longrightarrow> numericStat s \<Longrightarrow> numericStat (applySides sds s)"
  by (induction sds arbitrary: s) (auto simp: sidesPresent_def numericStat_addSide)

lemma sidesPresent_allSides: "scoresPresent ms \<Longrightarrow> sidesPresent (allSides ms)"
  by (induction ms) (auto simp: scoresPresent_def sidesPresent_def allSides_def sidesOf_def)

lemma sidesPresent_sidesFor: "sidesPresent sds \<Longrightarrow> sidesPresent (sidesFor k sds)"
  by (simp add: sidesPresent_def sidesFor_def list_all_iff)

lemma numericStat_newStat: "numericStat (newStat t)"
  by (simp add: numericStat_def newStat_def)

text \<open>
  Every accumulator that the loop leaves was made from the first side of its key and has
  had every side of that key added.
\<close>

lemma ran_fold_empty:
  assumes "s \<in> ran (ownProps (fold sideUpd sds emptyObject))"
  shows "\<exists>k sd rest. k \<notin> set objectPrototypeKeys \<and> sidesFor k sds = sd # rest
           \<and> s = applySides (sd # rest) (newStat (fst sd))"
proof -
  from assms obtain k where "ownProps (fold sideUpd sds emptyObject) k = Some s"
    by (auto simp: ran_def)
  then show ?thesis
    by (auto simp: ownProps_fold split: if_splits list.splits)
qed

lemma set_calculateTeamStats:
  "set (calculateTeamStats ms) =
     withDerived ` ran (ownProps (fold sideUpd (allSides ms) emptyObject))"
  by (simp add: calculateTeamStats_eq set_sortBy set_objectValues wellKeyed_fold wellKeyed_empty)

lemma numeric_entries:
  assumes "scoresPresent ms" and "s \<in> ran (ownProps (fold sideUpd (allSides ms) emptyObject))"
  shows "numericStat s"
proof -
  from ran_fold_empty [OF assms(2)] obtain k sd rest where
    f: "sidesFor k (allSides ms) = sd # rest" and s: "s = applySides (sd # rest) (newStat (fst sd))"
    by blast
  have "sidesPresent (sd # rest)"
    using sidesPresent_sidesFor [OF sidesPresent_allSides [OF assms(1)], of k] f by simp
  then show ?thesis unfolding s by (rule numericStat_applySides) (rule numericStat_newStat)
qed

text \<open>
  Scores within the exact range: they are present, a prefix of the list is within the range
  too (so the bound holds after every iteration of the loop), and no side has a negative
  score.
\<close>

lemma nonnegScore_iff: "nonnegScore x \<longleftrightarrow> (\<exists>a. x = Some a \<and> 0 \<le> a)"
  by (cases x) auto

lemma safeScores_scoresPresent: "safeScores ms \<Longrightarrow> scoresPresent ms"
  by (auto simp: safeScores_def scoresPresent_def list_all_iff nonnegScore_iff)

lemma scoreTotal_append: "scoreTotal (ms @ ms') = scoreTotal ms + scoreTotal ms'"
  by (simp add: scoreTotal_def)

lemma scoreTotal_nonneg:
  "list_all (\<lambda>m. nonnegScore (scoreA m) \<and> nonnegScore (scoreB m)) ms \<Longrightarrow> 0 \<le> scoreTotal ms"
  by (induction ms) (auto simp: scoreTotal_def nonnegScore_iff)

lemma safeScores_prefix: "safeScores (ms @ ms') \<Longrightarrow> safeScores ms"
  using scoreTotal_nonneg [of ms']
  by (auto simp: safeScores_def scoreTotal_append)

lemma sides_nonneg:
  assumes "safeScores ms" and "sd \<in> set (allSides ms)"
  shows "0 \<le> the (ownScore sd) \<and> 0 \<le> the (oppScore sd)"
proof -
  from assms(2) obtain m where m: "m \<in> set ms" and sd: "sd \<in> set (sidesOf m)"
    by (auto simp: allSides_def)
  from assms(1) m obtain a b where "scoreA m = Some a" "scoreB m = Some b" "0 \<le> a" "0 \<le> b"
    by (auto simp: safeScores_def list_all_iff nonnegScore_iff)
  with sd show ?thesis by (auto simp: sidesOf_def ownScore_def oppScore_def)
qed

lemma own_total:
  "scoresPresent ms \<Longrightarrow> sum_list (map (the \<circ> ownScore) (allSides ms)) = scoreTotal ms"
  by (induction ms)
     (auto simp: scoresPresent_def allSides_def sidesOf_def ownScore_def scoreTotal_def)

section \<open>The input array after the call\<close>

text \<open>
  Claim C6 says that \<^verbatim>\<open>calculateTeamStats\<close> does not mutate its input: after the call
  every match record, including the element order of \<^verbatim>\<open>teamA\<close> and \<^verbatim>\<open>teamB\<close>, is
  unchanged. Lines 400-401 call \<^verbatim>\<open>sort()\<close> on the arrays of the match itself, and
  \<^verbatim>\<open>Array.prototype.sort\<close> sorts in place: a match stored with the roster
  \<open>[Bob, Alice]\<close> holds \<open>[Alice, Bob]\<close> after the call.
\<close>

theorem input_mutated_counterexample:
  "inputAfter [\<lparr>userId = ''u1'', teamA = [''Bob'', ''Alice''], teamB = [''Dan'', ''Cara''],
                scoreA = Some 3, scoreB = Some 1\<rparr>]
   \<noteq> [\<lparr>userId = ''u1'', teamA = [''Bob'', ''Alice''], teamB = [''Dan'', ''Cara''],
        scoreA = Some 3, scoreB = Some 1\<rparr>]"
  by (simp add: inputAfter_eq)

text \<open>
  Claim C6, amended. The call changes the array it is given in exactly one way: in every
  match, \<^verbatim>\<open>teamA\<close> and \<^verbatim>\<open>teamB\<close> hold the same names in sorted order afterwards.
  The matches are the same in number and order, and the scores and the owner of each are
  as before.
\<close>

theorem input_sorted_in_place:
  "inputAfter ms = map (\<lambda>m. m\<lparr>teamA := sort (teamA m), teamB := sort (teamB m)\<rparr>) ms"
  using forEach_fst [of ms emptyObject]
  by (cases "forEach ms emptyObject") (simp add: inputAfter_def calculateTeamStats_run_def)

section \<open>The displayed roster\<close>

lemma team_addSide [simp]: "team (addSide own opp s) = team s"
  by (simp add: addSide_def)

lemma team_applySides [simp]: "team (applySides sds s) = team s"
  by (induction sds arbitrary: s) auto

lemma map_fst_allSides: "map fst (allSides ms) = map sort (rosters ms)"
  by (induction ms) (simp_all add: allSides_def rosters_def sidesOf_def)

lemma find_map: "List.find P (map f xs) = map_option f (List.find (P \<circ> f) xs)"
  by (induction xs) auto

lemma filter_Cons_find: "filter P xs = y # ys \<Longrightarrow> List.find P xs = Some y"
  by (induction xs) (auto split: if_splits)

lemma first_side_roster:
  assumes "sidesFor k (allSides ms) = sd # rest"
  shows "\<exists>r. List.find (\<lambda>r. teamKey r = k) (rosters ms) = Some r \<and> fst sd = sort r"
proof -
  have "filter (\<lambda>t. join t = k) (map fst (allSides ms)) = fst sd # map fst rest"
    using assms by (simp add: sidesFor_def filter_map comp_def)
  then have "List.find (\<lambda>t. join t = k) (map sort (rosters ms)) = Some (fst sd)"
    by (simp add: map_fst_allSides filter_Cons_find)
  then show ?thesis
    by (auto simp: find_map comp_def teamKey_def)
qed

lemma sidesFor_key:
  assumes "sidesFor k sds = sd # rest"
  shows "join (fst sd) = k"
proof -
  have "sd \<in> set (sidesFor k sds)" using assms by simp
  then show ?thesis by (simp add: sidesFor_def)
qed

lemma teamKey_sort [simp]: "teamKey (sort r) = teamKey r"
  by (simp add: teamKey_def sorted_sort_id)

text \<open>
  Claim C5 says that the \<^verbatim>\<open>team\<close> field of an entry is the roster in its original
  stored order from the first match met for that key, not the sorted order. The accumulator
  is created with \<^verbatim>\<open>team: match.teamA\<close> after \<^verbatim>\<open>match.teamA.sort()\<close> has sorted
  that very array, so the field holds the sorted roster: stored \<open>[Bob, Alice]\<close> and
  \<open>[Dan, Cara]\<close> are displayed as \<open>[Alice, Bob]\<close> and \<open>[Cara, Dan]\<close>.
\<close>

theorem team_field_counterexample:
  "map team (calculateTeamStats
     [\<lparr>userId = ''u1'', teamA = [''Bob'', ''Alice''], teamB = [''Dan'', ''Cara''],
       scoreA = Some 3, scoreB = Some 1\<rparr>])
   = [[''Alice'', ''Bob''], [''Cara'', ''Dan'']]"
  by (simp add: eval_simps)

text \<open>
  Claim C5, amended. For every input match list and every entry of the output, the
  \<^verbatim>\<open>team\<close> field is the sorted name sequence of the first roster met for that entry's
  key (rosters in loop order: \<^verbatim>\<open>teamA\<close> before \<^verbatim>\<open>teamB\<close>, match after match).
\<close>

theorem team_field_sorted_first:
  "\<forall>s \<in> set (calculateTeamStats ms).
     \<exists>r. List.find (\<lambda>r. teamKey r = teamKey (team s)) (rosters ms) = Some r \<and> team s = sort r"
proof
  fix e assume "e \<in> set (calculateTeamStats ms)"
  then obtain s where s: "s \<in> ran (ownProps (fold sideUpd (allSides ms) emptyObject))"
    and e: "e = withDerived s" by (auto simp: set_calculateTeamStats)
  from ran_fold_empty [OF s] obtain k sd rest where
    f: "sidesFor k (allSides ms) = sd # rest" and a: "s = applySides (sd # rest) (newStat (fst sd))"
    by blast
  have t: "team e = fst sd" by (simp add: e a withDerived_def newStat_def)
  from first_side_roster [OF f] obtain r where
    r: "List.find (\<lambda>r. teamKey r = k) (rosters ms) = Some r" and sr: "fst sd = sort r" by blast
  have "teamKey (team e) = k"
    using sidesFor_key [OF f] by (simp add: t sr teamKey_def sorted_sort_id)
  with r t sr show "\<exists>r. List.find (\<lambda>r. teamKey r = teamKey (team e)) (rosters ms) = Some r \<and> team e = sort r"
    by simp
qed

theorem team_field_sorted_first_witness:
  "\<lparr>team = [''Alice'', ''Bob''], wins = 1, losses = 0, draws = 1,
    goalsFor = Num 5, goalsAgainst = Num 3, matches = 2,
    points = 4, goalDifference = Num 2\<rparr> \<in> set (calculateTeamStats exampleMatches)
   \<and> (\<exists>r. List.find (\<lambda>r. teamKey r = teamKey [''Alice'', ''Bob'']) (rosters exampleMatches)
             = Some r
          \<and> [''Alice'', ''Bob''] = sort r)"
proof -
  let ?e = "\<lparr>team = [''Alice'', ''Bob''], wins = 1, losses = 0, draws = 1,
             goalsFor = Num 5, goalsAgainst = Num 3, matches = 2,
             points = 4, goalDifference = Num 2\<rparr>"
  have mem: "?e \<in> set (calculateTeamStats exampleMatches)"
    by (simp add: exampleMatches_result)
  from team_field_sorted_first [of exampleMatches] mem
  have "\<exists>r. List.find (\<lambda>r. teamKey r = teamKey (team ?e)) (rosters exampleMatches) = Some r
            \<and> team ?e = sort r"
    by (rule bspec)
  then have "\<exists>r. List.find (\<lambda>r. teamKey r = teamKey [''Alice'', ''Bob''])
                   (rosters exampleMatches) = Some r
                \<and> [''Alice'', ''Bob''] = sort r"
    by (simp only: stat.simps)
  with mem show ?thesis by (rule conjI)
qed

section \<open>Absent scores\<close>

lemma goalsFor_NaN_addSide: "goalsFor s = NaN \<Longrightarrow> goalsFor (addSide own opp s) = NaN"
  by (simp add: addSide_def)

lemma goalsAgainst_NaN_addSide: "goalsAgainst s = NaN \<Longrightarrow> goalsAgainst (addSide own opp s) = NaN"
  by (simp add: addSide_def)

lemma jadd_NaN [simp]: "jadd x NaN = NaN"
  by (cases x) simp_all

lemma goalsFor_NaN_applySides: "goalsFor s = NaN \<Longrightarrow> goalsFor (applySides sds s) = NaN"
  by (induction sds arbitrary: s) (auto simp: goalsFor_NaN_addSide)

lemma goalsAgainst_NaN_applySides:
  "goalsAgainst s = NaN \<Longrightarrow> goalsAgainst (applySides sds s) = NaN"
  by (induction sds arbitrary: s) (auto simp: goalsAgainst_NaN_addSide)

lemma goalsFor_absent:
  "(t, None, opp) \<in> set sds \<Longrightarrow> goalsFor (applySides sds s) = NaN"
proof (induction sds arbitrary: s)
  case Nil
  then show ?case by simp
next
  case (Cons sd sds)
  obtain t' own' opp' where sd: "sd = (t', own', opp')" by (cases sd)
  show ?case
  proof (cases "sd = (t, None, opp)")
    case True
    then show ?thesis by (simp add: goalsFor_NaN_applySides addSide_def)
  next
    case False
    with Cons.prems have "(t, None, opp) \<in> set sds" by simp
    then show ?thesis using Cons.IH by (simp add: sd)
  qed
qed

lemma goalsAgainst_absent:
  "(t, own, None) \<in> set sds \<Longrightarrow> goalsAgainst (applySides sds s) = NaN"
proof (induction sds arbitrary: s)
  case Nil
  then show ?case by simp
next
  case (Cons sd sds)
  obtain t' own' opp' where sd: "sd = (t', own', opp')" by (cases sd)
  show ?case
  proof (cases "sd = (t, own, None)")
    case True
    then show ?thesis by (simp add: goalsAgainst_NaN_applySides addSide_def)
  next
    case False
    with Cons.prems have "(t, own, None) \<in> set sds" by simp
    then show ?thesis using Cons.IH by (simp add: sd)
  qed
qed

text \<open>A side with an absent score poisons the accumulator of its key.\<close>

lemma poisoned_side:
  assumes "(t, own, opp) \<in> set (allSides ms)" and "own = None \<or> opp = None"
    and "join t \<notin> set objectPrototypeKeys"
  shows "\<exists>e \<in> set (calculateTeamStats ms).
           teamKey (team e) = join t \<and> (goalsFor e = NaN \<or> goalsAgainst e = NaN)
           \<and> goalDifference e = NaN"
proof -
  let ?T = "fold sideUpd (allSides ms) emptyObject"
  let ?sds = "sidesFor (join t) (allSides ms)"
  have mem: "(t, own, opp) \<in> set ?sds" using assms(1) by (simp add: sidesFor_def)
  then obtain sd rest where f: "?sds = sd # rest" by (cases ?sds) auto
  define s where "s = applySides (sd # rest) (newStat (fst sd))"
  have p: "ownProps ?T (join t) = Some s"
    using assms(3) f by (simp add: ownProps_fold s_def)
  then have "s \<in> ran (ownProps ?T)" by (auto simp: ran_def)
  then have e: "withDerived s \<in> set (calculateTeamStats ms)"
    by (simp add: set_calculateTeamStats)
  have n: "goalsFor s = NaN \<or> goalsAgainst s = NaN"
    using assms(2) mem goalsFor_absent [of t opp "sd # rest"] goalsAgainst_absent [of t own "sd # rest"]
    by (auto simp: s_def f)
  from first_side_roster [OF f] obtain r where "fst sd = sort r" by blast
  then have k: "teamKey (team s) = join t"
    using sidesFor_key [OF f] by (simp add: s_def newStat_def teamKey_def sorted_sort_id)
  have "goalDifference (withDerived s) = NaN"
    using n by (cases "goalsFor s"; cases "goalsAgainst s") (auto simp: withDerived_def)
  with e n k show ?thesis
    by (intro bexI [of _ "withDerived s"]) (auto simp: withDerived_def)
qed

text \<open>
  Claim C7 says that a match list containing a match with an absent or non-numeric score
  makes \<^verbatim>\<open>calculateTeamStats\<close> fail fast with an explicit error instead of returning
  aggregates poisoned by \<^verbatim>\<open>NaN\<close>. The function has no check and no \<^verbatim>\<open>throw\<close>: with
  \<^verbatim>\<open>scoreA\<close> absent it returns normally, counts the match as a draw for both sides
  (neither \<^verbatim>\<open>undefined > 1\<close> nor \<^verbatim>\<open>undefined < 1\<close> holds) and returns \<^verbatim>\<open>NaN\<close> in
  \<^verbatim>\<open>goalsFor\<close>, \<^verbatim>\<open>goalsAgainst\<close> and \<^verbatim>\<open>goalDifference\<close>.
\<close>

theorem absent_score_counterexample:
  "calculateTeamStats
     [\<lparr>userId = ''u1'', teamA = [''Ana''], teamB = [''Bia''], scoreA = None, scoreB = Some 1\<rparr>]
   = [\<lparr>team = [''Ana''], wins = 0, losses = 0, draws = 1,
       goalsFor = NaN, goalsAgainst = Num 1, matches = 1, points = 1, goalDifference = NaN\<rparr>,
      \<lparr>team = [''Bia''], wins = 0, losses = 0, draws = 1,
       goalsFor = Num 1, goalsAgainst = NaN, matches = 1, points = 1, goalDifference = NaN\<rparr>]"
  by (simp add: eval_simps)

text \<open>
  Claim C7, amended. \<^verbatim>\<open>calculateTeamStats\<close> does not validate scores and raises no
  error. For every match list and every match in it with an absent \<^verbatim>\<open>scoreA\<close> or
  \<^verbatim>\<open>scoreB\<close>, the returned array has an entry for each of the two teams of that match
  (each team whose key is not the name of a property inherited from
  \<^verbatim>\<open>Object.prototype\<close>), and in that entry \<^verbatim>\<open>goalsFor\<close> or \<^verbatim>\<open>goalsAgainst\<close> is
  \<^verbatim>\<open>NaN\<close> and \<^verbatim>\<open>goalDifference\<close> is \<^verbatim>\<open>NaN\<close>.
\<close>

theorem absent_score_poisons:
  assumes "m \<in> set ms" and "scoreA m = None \<or> scoreB m = None"
    and "k = teamKey (teamA m) \<or> k = teamKey (teamB m)"
    and "k \<notin> set objectPrototypeKeys"
  shows "\<exists>e \<in> set (calculateTeamStats ms).
           teamKey (team e) = k \<and> (goalsFor e = NaN \<or> goalsAgainst e = NaN)
           \<and> goalDifference e = NaN"
proof -
  have a: "(sort (teamA m), scoreA m, scoreB m) \<in> set (allSides ms)"
    and b: "(sort (teamB m), scoreB m, scoreA m) \<in> set (allSides ms)"
    using assms(1) by (auto simp: allSides_def sidesOf_def)
  from assms(3) show ?thesis
  proof
    assume "k = teamKey (teamA m)"
    then show ?thesis
      using poisoned_side [OF a] assms(2,4) by (auto simp: teamKey_def)
  next
    assume "k = teamKey (teamB m)"
    then show ?thesis
      using poisoned_side [OF b] assms(2,4) by (auto simp: teamKey_def)
  qed
qed

theorem absent_score_poisons_witness:
  "hd exampleAbsent \<in> set exampleAbsent
   \<and> (scoreA (hd exampleAbsent) = None \<or> scoreB (hd exampleAbsent) = None)
   \<and> (''Ana'' = teamKey (teamA (hd exampleAbsent)) \<or> ''Ana'' = teamKey (teamB (hd exampleAbsent)))
   \<and> ''Ana'' \<notin> set objectPrototypeKeys
   \<and> (\<exists>e \<in> set (calculateTeamStats exampleAbsent).
          teamKey (team e) = ''Ana'' \<and> (goalsFor e = NaN \<or> goalsAgainst e = NaN)
          \<and> goalDifference e = NaN)"
proof -
  have h1: "hd exampleAbsent \<in> set exampleAbsent"
    by (simp add: exampleAbsent_def)
  have h2: "scoreA (hd exampleAbsent) = None \<or> scoreB (hd exampleAbsent) = None"
    by (simp add: exampleAbsent_def)
  have h3: "''Ana'' = teamKey (teamA (hd exampleAbsent))
            \<or> ''Ana'' = teamKey (teamB (hd exampleAbsent))"
    by (simp add: exampleAbsent_def teamKey_def)
  have h4: "''Ana'' \<notin> set objectPrototypeKeys"
    by (simp add: objectPrototypeKeys_def)
  from absent_score_poisons [OF h1 h2 h3 h4] h1 h2 h3 h4 show ?thesis by blast
qed

section \<open>Team keys that name inherited properties\<close>

text \<open>
  \<^verbatim>\<open>teamStats\<close> is created as \<^verbatim>\<open>{}\<close>, so \<^verbatim>\<open>teamStats[key]\<close> also finds what
  \<^verbatim>\<open>Object.prototype\<close> provides. For a roster whose key is \<^verbatim>\<open>constructor\<close>,
  \<^verbatim>\<open>toString\<close>, \<^verbatim>\<open>valueOf\<close>, \<^verbatim>\<open>__proto__\<close> or another inherited name, the guard
  \<^verbatim>\<open>if (!teamStats[key])\<close> of lines 404 and 417 reads a function (or the prototype
  object), which is truthy; no accumulator is created, the updates of lines 430-448 are
  written to that inherited object, and \<^verbatim>\<open>Object.values\<close> never lists it. The four claims
  below are proved for every other key and fail on these, all through this one defect.
\<close>

subsection \<open>One entry per key\<close>

lemma sidesFor_empty_iff: "sidesFor k sds = [] \<longleftrightarrow> k \<notin> join ` fst ` set sds"
  by (auto simp: sidesFor_def filter_empty_conv image_iff)

lemma keys_allSides: "join ` fst ` set (allSides ms) = teamKey ` set (rosters ms)"
proof -
  have "join ` set (map fst (allSides ms)) = join ` set (map sort (rosters ms))"
    by (simp only: map_fst_allSides)
  then show ?thesis by (simp add: image_image teamKey_def)
qed

lemma dom_fold_empty:
  "dom (ownProps (fold sideUpd (allSides ms) emptyObject))
     = {k \<in> teamKey ` set (rosters ms). k \<notin> set objectPrototypeKeys}"
proof -
  have "ownProps (fold sideUpd (allSides ms) emptyObject) k \<noteq> None
          \<longleftrightarrow> k \<notin> set objectPrototypeKeys \<and> sidesFor k (allSides ms) \<noteq> []" for k
    by (simp add: ownProps_fold split: list.splits)
  then show ?thesis
    unfolding dom_def sidesFor_empty_iff keys_allSides by blast
qed

lemma key_of_entry:
  assumes "ownProps (fold sideUpd (allSides ms) emptyObject) k = Some s"
  shows "join (team s) = k"
proof -
  from assms obtain sd rest where f: "sidesFor k (allSides ms) = sd # rest"
    and s: "s = applySides (sd # rest) (newStat (fst sd))"
    by (auto simp: ownProps_fold split: if_splits list.splits)
  show ?thesis using sidesFor_key [OF f] by (simp add: s newStat_def)
qed

lemma team_withDerived [simp]: "team (withDerived s) = team s"
  by (simp add: withDerived_def)

lemma mset_calculateTeamStats:
  "mset (calculateTeamStats ms) =
     image_mset (\<lambda>k. withDerived (the (ownProps (fold sideUpd (allSides ms) emptyObject) k)))
       (mset (ownKeys (fold sideUpd (allSides ms) emptyObject)))"
proof -
  let ?T = "fold sideUpd (allSides ms) emptyObject"
  have w: "wellKeyed ?T" by (simp add: wellKeyed_fold wellKeyed_empty)
  have "mset (calculateTeamStats ms) = image_mset withDerived (mset (objectValues ?T))"
    by (simp add: calculateTeamStats_eq mset_sortBy)
  also have "\<dots> = image_mset withDerived (image_mset (\<lambda>k. the (ownProps ?T k)) (mset (ownKeys ?T)))"
    by (simp only: objectValues_wellKeyed [OF w])
  finally show ?thesis by (simp add: image_mset.compositionality comp_def)
qed

lemma keys_of_output:
  "mset (map (\<lambda>e. join (team e)) (calculateTeamStats ms))
     = mset (ownKeys (fold sideUpd (allSides ms) emptyObject))"
proof -
  let ?T = "fold sideUpd (allSides ms) emptyObject"
  have w: "wellKeyed ?T" by (simp add: wellKeyed_fold wellKeyed_empty)
  have "mset (map (\<lambda>e. join (team e)) (calculateTeamStats ms))
          = image_mset (\<lambda>e. join (team e)) (mset (calculateTeamStats ms))"
    by simp
  also have "\<dots> = image_mset (\<lambda>e. join (team e))
                      (image_mset (\<lambda>k. withDerived (the (ownProps ?T k))) (mset (ownKeys ?T)))"
    by (simp only: mset_calculateTeamStats)
  also have "\<dots> = image_mset (\<lambda>k. join (team (the (ownProps ?T k)))) (mset (ownKeys ?T))"
    by (simp add: image_mset.compositionality comp_def)
  also have "\<dots> = image_mset (\<lambda>k. k) (mset (ownKeys ?T))"
  proof (rule image_mset_cong)
    fix k assume "k \<in># mset (ownKeys ?T)"
    with w obtain s where "ownProps ?T k = Some s" by (auto simp: wellKeyed_def)
    then show "join (team (the (ownProps ?T k))) = k" using key_of_entry by simp
  qed
  finally show ?thesis by simp
qed

text \<open>One entry per key that is not an inherited name.\<close>

lemma one_entry_per_key:
  "distinct (map (\<lambda>e. join (team e)) (calculateTeamStats ms))
   \<and> set (map (\<lambda>e. join (team e)) (calculateTeamStats ms))
       = {k \<in> teamKey ` set (rosters ms). k \<notin> set objectPrototypeKeys}"
proof -
  let ?T = "fold sideUpd (allSides ms) emptyObject"
  have w: "wellKeyed ?T" by (simp add: wellKeyed_fold wellKeyed_empty)
  have "distinct (map (\<lambda>e. join (team e)) (calculateTeamStats ms)) = distinct (ownKeys ?T)"
    using keys_of_output [of ms] by (metis mset_eq_imp_distinct_iff)
  moreover have "set (map (\<lambda>e. join (team e)) (calculateTeamStats ms)) = set (ownKeys ?T)"
    using keys_of_output [of ms] by (metis set_mset_mset)
  ultimately show ?thesis using w dom_fold_empty [of ms] by (simp add: wellKeyed_def)
qed

lemma entries_count:
  assumes "inheritedFree ms"
  shows "length (calculateTeamStats ms) = card (teamKey ` set (rosters ms))"
proof -
  have "{k \<in> teamKey ` set (rosters ms). k \<notin> set objectPrototypeKeys} = teamKey ` set (rosters ms)"
    using assms by (auto simp: inheritedFree_def list_all_iff)
  with one_entry_per_key [of ms]
  have d: "distinct (map (\<lambda>e. join (team e)) (calculateTeamStats ms))"
    and s: "set (map (\<lambda>e. join (team e)) (calculateTeamStats ms)) = teamKey ` set (rosters ms)"
    by simp_all
  from d have "card (set (map (\<lambda>e. join (team e)) (calculateTeamStats ms)))
                 = length (map (\<lambda>e. join (team e)) (calculateTeamStats ms))"
    by (rule distinct_card)
  with s show ?thesis by simp
qed

lemma teamKey_perm: "mset r = mset r' \<Longrightarrow> teamKey r = teamKey r'"
  by (metis teamKey_def mset_sort properties_for_sort sorted_sort)

text \<open>
  Claim C2 (one entry per distinct team identity key), evaluated on a match between the
  one-player teams \<open>toString\<close> and \<open>Ana\<close>: two distinct keys occur, one entry is
  returned.
\<close>

theorem entries_inherited_key:
  "remdups (map teamKey (rosters
     [\<lparr>userId = ''u1'', teamA = [''toString''], teamB = [''Ana''],
       scoreA = Some 1, scoreB = Some 1\<rparr>])) = [''toString'', ''Ana'']
   \<and> map team (calculateTeamStats
     [\<lparr>userId = ''u1'', teamA = [''toString''], teamB = [''Ana''],
       scoreA = Some 1, scoreB = Some 1\<rparr>]) = [[''Ana'']]"
  by (simp add: eval_simps rosters_def teamKey_def)

subsection \<open>The update of every side\<close>

lemma matches_applySides: "matches (applySides sds s) = matches s + int (length sds)"
  by (induction sds arbitrary: s) (auto simp: addSide_def)

lemma wins_applySides: "wins (applySides sds s) = wins s + int (length (filter won sds))"
  by (induction sds arbitrary: s) (auto simp: addSide_def won_def ownScore_def oppScore_def)

lemma losses_applySides: "losses (applySides sds s) = losses s + int (length (filter lost sds))"
  by (induction sds arbitrary: s) (auto simp: addSide_def lost_def ownScore_def oppScore_def)

lemma draws_applySides: "draws (applySides sds s) = draws s + int (length (filter drew sds))"
  by (induction sds arbitrary: s)
     (auto simp: addSide_def drew_def won_def lost_def ownScore_def oppScore_def)

lemma goalsFor_applySides:
  "goalsFor (applySides sds s) = foldl jadd (goalsFor s) (map (toNumber \<circ> ownScore) sds)"
  by (induction sds arbitrary: s) (auto simp: addSide_def ownScore_def)

lemma goalsAgainst_applySides:
  "goalsAgainst (applySides sds s) = foldl jadd (goalsAgainst s) (map (toNumber \<circ> oppScore) sds)"
  by (induction sds arbitrary: s) (auto simp: addSide_def oppScore_def)

text \<open>
  The entry of a key that is not an inherited name has received the update of every side
  with that key, once each.
\<close>

lemma entry_aggregate:
  assumes "k \<notin> set objectPrototypeKeys" and "k \<in> teamKey ` set (rosters ms)"
  shows "\<exists>e \<in> set (calculateTeamStats ms).
           join (team e) = k
           \<and> matches e = int (length (sidesFor k (allSides ms)))
           \<and> wins e = int (length (filter won (sidesFor k (allSides ms))))
           \<and> losses e = int (length (filter lost (sidesFor k (allSides ms))))
           \<and> draws e = int (length (filter drew (sidesFor k (allSides ms))))
           \<and> goalsFor e = total (map (toNumber \<circ> ownScore) (sidesFor k (allSides ms)))
           \<and> goalsAgainst e = total (map (toNumber \<circ> oppScore) (sidesFor k (allSides ms)))"
proof -
  let ?T = "fold sideUpd (allSides ms) emptyObject"
  let ?sds = "sidesFor k (allSides ms)"
  from assms(2) have "?sds \<noteq> []" by (simp add: sidesFor_empty_iff keys_allSides)
  then obtain sd rest where f: "?sds = sd # rest" by (cases ?sds) auto
  define s where "s = applySides ?sds (newStat (fst sd))"
  have p: "ownProps ?T k = Some s" using assms(1) f by (simp add: ownProps_fold s_def)
  then have "s \<in> ran (ownProps ?T)" by (auto simp: ran_def)
  then have e: "withDerived s \<in> set (calculateTeamStats ms)" by (simp add: set_calculateTeamStats)
  have "join (team s) = k" using key_of_entry [OF p] .
  moreover have "matches s = int (length ?sds)"
    by (simp add: s_def matches_applySides newStat_def)
  moreover have "wins s = int (length (filter won ?sds))"
    by (simp add: s_def wins_applySides newStat_def)
  moreover have "losses s = int (length (filter lost ?sds))"
    by (simp add: s_def losses_applySides newStat_def)
  moreover have "draws s = int (length (filter drew ?sds))"
    by (simp add: s_def draws_applySides newStat_def)
  moreover have "goalsFor s = total (map (toNumber \<circ> ownScore) ?sds)"
    by (simp add: s_def goalsFor_applySides newStat_def total_def)
  moreover have "goalsAgainst s = total (map (toNumber \<circ> oppScore) ?sds)"
    by (simp add: s_def goalsAgainst_applySides newStat_def total_def)
  ultimately show ?thesis using e
    by (intro bexI [of _ "withDerived s"]) (simp_all add: withDerived_def)
qed

text \<open>
  Claim C1 (the per-match update reaches both team identities of every match), evaluated
  on a match won 2:1 by the one-player team \<open>constructor\<close> against \<open>Ana\<close>: the returned
  array records the loss of \<open>Ana\<close> and holds nothing for the winner: no entry has
  its \<^verbatim>\<open>matches\<close> raised or gains the win and the goals of team A.
\<close>

theorem update_rule_inherited_key:
  "calculateTeamStats
     [\<lparr>userId = ''u1'', teamA = [''constructor''], teamB = [''Ana''],
       scoreA = Some 2, scoreB = Some 1\<rparr>]
   = [\<lparr>team = [''Ana''], wins = 0, losses = 1, draws = 0,
       goalsFor = Num 1, goalsAgainst = Num 2, matches = 1,
       points = 0, goalDifference = Num (- 1)\<rparr>]"
  by (simp add: eval_simps)

subsection \<open>Goals for and goals against\<close>

lemma foldl_jadd_Num: "foldl jadd (Num a) (map Num xs) = Num (a + sum_list xs)"
  by (induction xs arbitrary: a) (simp_all add: add.assoc)

lemma total_Num: "total (map Num xs) = Num (sum_list xs)"
  by (simp add: total_def foldl_jadd_Num)

lemma Num_intOf: "x \<noteq> NaN \<Longrightarrow> Num (intOf x) = x"
  by (cases x) (simp_all add: intOf_def)

lemma intOf_goalsFor_applySides:
  "sidesPresent sds \<Longrightarrow> numericStat s \<Longrightarrow>
   intOf (goalsFor (applySides sds s)) = intOf (goalsFor s) + sum_list (map (the \<circ> ownScore) sds)"
proof (induction sds arbitrary: s)
  case Nil
  then show ?case by simp
next
  case (Cons sd sds)
  obtain t own opp where sd: "sd = (t, own, opp)" by (cases sd)
  from Cons.prems obtain a b where ab: "own = Some a" "opp = Some b"
    by (auto simp: sidesPresent_def sd)
  from Cons.prems have n: "numericStat (addSide own opp s)"
    by (simp add: numericStat_addSide sidesPresent_def sd)
  from Cons.prems obtain g where g: "goalsFor s = Num g"
    by (auto simp: numericStat_def jsnum_not_NaN)
  have "intOf (goalsFor (addSide own opp s)) = intOf (goalsFor s) + a"
    by (simp add: addSide_def ab g intOf_def)
  then show ?case
    using Cons.IH [OF _ n] Cons.prems
    by (simp add: sd sidesPresent_def ownScore_def ab)
qed

lemma intOf_goalsAgainst_applySides:
  "sidesPresent sds \<Longrightarrow> numericStat s \<Longrightarrow>
   intOf (goalsAgainst (applySides sds s))
     = intOf (goalsAgainst s) + sum_list (map (the \<circ> oppScore) sds)"
proof (induction sds arbitrary: s)
  case Nil
  then show ?case by simp
next
  case (Cons sd sds)
  obtain t own opp where sd: "sd = (t, own, opp)" by (cases sd)
  from Cons.prems obtain a b where ab: "own = Some a" "opp = Some b"
    by (auto simp: sidesPresent_def sd)
  from Cons.prems have n: "numericStat (addSide own opp s)"
    by (simp add: numericStat_addSide sidesPresent_def sd)
  from Cons.prems obtain g where g: "goalsAgainst s = Num g"
    by (auto simp: numericStat_def jsnum_not_NaN)
  have "intOf (goalsAgainst (addSide own opp s)) = intOf (goalsAgainst s) + b"
    by (simp add: addSide_def ab g intOf_def)
  then show ?case
    using Cons.IH [OF _ n] Cons.prems
    by (simp add: sd sidesPresent_def oppScore_def ab)
qed

lemma sum_list_no_key:
  "a \<notin> set ks \<Longrightarrow> sum_list (map (\<lambda>k. if a = k then (c::int) else 0) ks) = 0"
  by (induction ks) auto

lemma sum_list_single_key:
  "distinct ks \<Longrightarrow> a \<in> set ks \<Longrightarrow> sum_list (map (\<lambda>k. if a = k then (c::int) else 0) ks) = c"
  by (induction ks) (auto simp: sum_list_no_key)

text \<open>Grouping the sides by key and adding up group by group adds up all sides.\<close>

lemma sum_by_key:
  fixes f :: "side \<Rightarrow> int"
  assumes "distinct ks" and "join ` fst ` set sds \<subseteq> set ks"
  shows "sum_list (map (\<lambda>k. sum_list (map f (sidesFor k sds))) ks) = sum_list (map f sds)"
  using assms(2)
proof (induction sds)
  case Nil
  show ?case by (simp add: sidesFor_def)
next
  case (Cons sd sds)
  have "sum_list (map (\<lambda>k. sum_list (map f (sidesFor k (sd # sds)))) ks)
          = sum_list (map (\<lambda>k. (if join (fst sd) = k then f sd else 0)
                                + sum_list (map f (sidesFor k sds))) ks)"
    by (rule arg_cong [where f = sum_list]) (simp add: sidesFor_def)
  also have "\<dots> = sum_list (map (\<lambda>k. if join (fst sd) = k then f sd else 0) ks)
                    + sum_list (map (\<lambda>k. sum_list (map f (sidesFor k sds))) ks)"
    by (simp add: sum_list_addf)
  also have "\<dots> = f sd + sum_list (map f sds)"
    using Cons assms(1) by (simp add: sum_list_single_key)
  finally show ?case by simp
qed

lemma sum_allSides: 
  "sum_list (map (the \<circ> ownScore) (allSides ms)) = sum_list (map (the \<circ> oppScore) (allSides ms))"
  by (induction ms) (simp_all add: allSides_def sidesOf_def ownScore_def oppScore_def)

text \<open>
  With the scores within the exact range and no inherited name among the keys, the goals for
  and the goals against of the returned entries add up to the same whole number.
\<close>

lemma goals_conserved:
  assumes "safeScores ms" and "inheritedFree ms"
  shows "\<exists>n. total (map goalsFor (calculateTeamStats ms)) = Num n
            \<and> total (map goalsAgainst (calculateTeamStats ms)) = Num n"
proof -
  let ?sds = "allSides ms"
  let ?T = "fold sideUpd ?sds emptyObject"
  let ?ks = "ownKeys ?T"
  let ?out = "calculateTeamStats ms"
  have w: "wellKeyed ?T" by (simp add: wellKeyed_fold wellKeyed_empty)
  have pr: "scoresPresent ms" using assms(1) by (rule safeScores_scoresPresent)
  have p: "sidesPresent ?sds" using pr by (rule sidesPresent_allSides)
  have ks: "set ?ks = teamKey ` set (rosters ms)"
    using w dom_fold_empty [of ms] assms(2)
    by (auto simp: wellKeyed_def inheritedFree_def list_all_iff)
  then have sub: "join ` fst ` set ?sds \<subseteq> set ?ks" by (simp add: keys_allSides)
  have d: "distinct ?ks" using w by (simp add: wellKeyed_def)
  have entry: "ownProps ?T k = Some (applySides (sidesFor k ?sds) (newStat (fst (hd (sidesFor k ?sds)))))"
    if "k \<in> set ?ks" for k
  proof -
    from that w obtain s where s: "ownProps ?T k = Some s" by (auto simp: wellKeyed_def)
    then show ?thesis by (auto simp: ownProps_fold split: if_splits list.splits)
  qed
  have num: "goalsFor e \<noteq> NaN \<and> goalsAgainst e \<noteq> NaN" if "e \<in> set ?out" for e
  proof -
    from that obtain s where "s \<in> ran (ownProps ?T)" and e: "e = withDerived s"
      by (auto simp: set_calculateTeamStats)
    with pr have "numericStat s" by (simp add: numeric_entries)
    then show ?thesis by (simp add: e withDerived_def numericStat_def)
  qed
  have gf: "map goalsFor ?out = map Num (map (intOf \<circ> goalsFor) ?out)"
    using num by (simp add: Num_intOf)
  have ga: "map goalsAgainst ?out = map Num (map (intOf \<circ> goalsAgainst) ?out)"
    using num by (simp add: Num_intOf)
  have col: "sum_list (map (intOf \<circ> g) ?out)
               = sum_list (map (\<lambda>k. intOf (g (withDerived (the (ownProps ?T k))))) ?ks)"
    for g :: "teamStat \<Rightarrow> jsnum"
  proof -
    have "sum_list (map (intOf \<circ> g) ?out) = sum_mset (image_mset (intOf \<circ> g) (mset ?out))"
      by (simp flip: sum_mset_sum_list)
    also have "\<dots> = sum_mset (image_mset (\<lambda>k. intOf (g (withDerived (the (ownProps ?T k)))))
                                  (mset ?ks))"
      by (simp add: mset_calculateTeamStats image_mset.compositionality comp_def)
    also have "\<dots> = sum_list (map (\<lambda>k. intOf (g (withDerived (the (ownProps ?T k))))) ?ks)"
      by (simp flip: sum_mset_sum_list)
    finally show ?thesis .
  qed
  have "sum_list (map (intOf \<circ> goalsFor) ?out)
          = sum_list (map (\<lambda>k. sum_list (map (the \<circ> ownScore) (sidesFor k ?sds))) ?ks)"
    unfolding col
    by (rule arg_cong [where f = sum_list], rule map_cong [OF refl])
       (simp add: entry withDerived_def intOf_goalsFor_applySides
          sidesPresent_sidesFor [OF p] numericStat_newStat, simp add: newStat_def intOf_def)
  also have "\<dots> = sum_list (map (the \<circ> ownScore) ?sds)"
    using d sub by (rule sum_by_key)
  finally have F: "sum_list (map (intOf \<circ> goalsFor) ?out) = sum_list (map (the \<circ> ownScore) ?sds)" .
  have "sum_list (map (intOf \<circ> goalsAgainst) ?out)
          = sum_list (map (\<lambda>k. sum_list (map (the \<circ> oppScore) (sidesFor k ?sds))) ?ks)"
    unfolding col
    by (rule arg_cong [where f = sum_list], rule map_cong [OF refl])
       (simp add: entry withDerived_def intOf_goalsAgainst_applySides
          sidesPresent_sidesFor [OF p] numericStat_newStat, simp add: newStat_def intOf_def)
  also have "\<dots> = sum_list (map (the \<circ> oppScore) ?sds)"
    using d sub by (rule sum_by_key)
  finally have A: "sum_list (map (intOf \<circ> goalsAgainst) ?out) = sum_list (map (the \<circ> oppScore) ?sds)" .
  have "total (map goalsFor ?out) = Num (sum_list (map (the \<circ> ownScore) ?sds))"
    by (subst gf) (simp only: total_Num F)
  moreover have "total (map goalsAgainst ?out) = Num (sum_list (map (the \<circ> ownScore) ?sds))"
    by (subst ga) (simp only: total_Num A sum_allSides)
  ultimately show ?thesis by blast
qed

text \<open>
  Claim C9 (the goals for and the goals against add up to the same number over the
  returned entries), evaluated on a match won 3:0 by the one-player team \<open>valueOf\<close>
  against \<open>Ana\<close>: the entries sum to 0 goals for and 3 goals against.
\<close>

theorem goals_inherited_key:
  "total (map goalsFor (calculateTeamStats
     [\<lparr>userId = ''u1'', teamA = [''valueOf''], teamB = [''Ana''],
       scoreA = Some 3, scoreB = Some 0\<rparr>])) = Num 0
   \<and> total (map goalsAgainst (calculateTeamStats
     [\<lparr>userId = ''u1'', teamA = [''valueOf''], teamB = [''Ana''],
       scoreA = Some 3, scoreB = Some 0\<rparr>])) = Num 3"
  by (simp add: eval_simps total_def)

subsection \<open>A match of a team against itself\<close>

lemma same_key_update:
  assumes "teamKey (teamA m) = k" and "teamKey (teamB m) = k" and "k \<notin> set objectPrototypeKeys"
  shows "ownProps (snd (forEachBody m T)) k =
           Some (addSide (scoreB m) (scoreA m) (addSide (scoreA m) (scoreB m)
                  (case ownProps T k of Some s \<Rightarrow> s | None \<Rightarrow> newStat (sort (teamA m)))))"
  using assms
  by (simp add: forEachBody_snd sidesOf_def ownProps_sideUpd teamKey_def split: option.splits)

lemma addSide_twice:
  "matches (addSide b a (addSide a b s)) = matches s + 2
   \<and> goalsFor (addSide b a (addSide a b s)) = jadd (jadd (goalsFor s) (toNumber a)) (toNumber b)
   \<and> goalsAgainst (addSide b a (addSide a b s))
       = jadd (jadd (goalsAgainst s) (toNumber b)) (toNumber a)
   \<and> wins (addSide b a (addSide a b s)) = wins s + (if jgt a b \<or> jgt b a then 1 else 0)
   \<and> losses (addSide b a (addSide a b s)) = losses s + (if jgt a b \<or> jgt b a then 1 else 0)
   \<and> draws (addSide b a (addSide a b s)) = draws s + (if jgt a b \<or> jgt b a then 0 else 2)"
  by (auto simp: addSide_def dest: jgt_asym)

text \<open>
  Claim C10 (a match whose two rosters have the same key updates the one shared entry
  twice), evaluated on a match of the one-player team \<open>__proto__\<close> against itself: the
  call returns without an error, and it returns no entry at all, so nothing has its
  \<^verbatim>\<open>matches\<close> raised by 2.
\<close>

theorem same_key_inherited_key:
  "calculateTeamStats
     [\<lparr>userId = ''u1'', teamA = [''__proto__''], teamB = [''__proto__''],
       scoreA = Some 2, scoreB = Some 1\<rparr>] = []"
  by (simp add: eval_simps)

section \<open>Sortedness of the returned array\<close>

lemma sum_filter_le:
  fixes f :: "'a \<Rightarrow> int"
  shows "\<forall>x \<in> set xs. 0 \<le> f x \<Longrightarrow> sum_list (map f (filter P xs)) \<le> sum_list (map f xs)"
  by (induction xs) auto

lemma sum_nonneg:
  fixes f :: "'a \<Rightarrow> int"
  shows "\<forall>x \<in> set xs. 0 \<le> f x \<Longrightarrow> 0 \<le> sum_list (map f xs)"
  by (induction xs) auto

text \<open>
  Within the exact range every returned entry holds whole numbers between 0 and \<open>2^52\<close>
  as \<^verbatim>\<open>goalsFor\<close> and \<^verbatim>\<open>goalsAgainst\<close>, and their difference as \<^verbatim>\<open>goalDifference\<close>:
  no \<^verbatim>\<open>NaN\<close>, and nothing that a double would round.
\<close>

lemma safe_entry_exact:
  assumes "safeScores ms" and "e \<in> set (calculateTeamStats ms)"
  shows "\<exists>a b. goalsFor e = Num a \<and> goalsAgainst e = Num b \<and> goalDifference e = Num (a - b)
               \<and> 0 \<le> a \<and> a \<le> 4503599627370496 \<and> 0 \<le> b \<and> b \<le> 4503599627370496"
proof -
  let ?sds = "allSides ms"
  have pr: "scoresPresent ms" using assms(1) by (rule safeScores_scoresPresent)
  have p: "sidesPresent ?sds" using pr by (rule sidesPresent_allSides)
  from assms(2) obtain s where s: "s \<in> ran (ownProps (fold sideUpd ?sds emptyObject))"
    and e: "e = withDerived s" by (auto simp: set_calculateTeamStats)
  from ran_fold_empty [OF s] obtain k sd rest where
    f: "sidesFor k ?sds = sd # rest" and a: "s = applySides (sidesFor k ?sds) (newStat (fst sd))"
    by auto
  have n: "numericStat s" using pr s by (rule numeric_entries)
  have pk: "sidesPresent (sidesFor k ?sds)" using p by (rule sidesPresent_sidesFor)
  have gf: "intOf (goalsFor s) = sum_list (map (the \<circ> ownScore) (sidesFor k ?sds))"
    unfolding a using intOf_goalsFor_applySides [OF pk numericStat_newStat, of "fst sd"]
    by (simp add: newStat_def intOf_def)
  have ga: "intOf (goalsAgainst s) = sum_list (map (the \<circ> oppScore) (sidesFor k ?sds))"
    unfolding a using intOf_goalsAgainst_applySides [OF pk numericStat_newStat, of "fst sd"]
    by (simp add: newStat_def intOf_def)
  have nn: "\<forall>sd \<in> set ?sds. 0 \<le> (the \<circ> ownScore) sd" "\<forall>sd \<in> set ?sds. 0 \<le> (the \<circ> oppScore) sd"
    using sides_nonneg [OF assms(1)] by simp_all
  have tot: "scoreTotal ms \<le> 4503599627370496" using assms(1) by (simp add: safeScores_def)
  have "intOf (goalsFor s) \<le> sum_list (map (the \<circ> ownScore) ?sds)"
    unfolding gf sidesFor_def using nn(1) by (rule sum_filter_le)
  then have gf_le: "intOf (goalsFor s) \<le> 4503599627370496"
    using own_total [OF pr] tot by simp
  have "intOf (goalsAgainst s) \<le> sum_list (map (the \<circ> oppScore) ?sds)"
    unfolding ga sidesFor_def using nn(2) by (rule sum_filter_le)
  then have ga_le: "intOf (goalsAgainst s) \<le> 4503599627370496"
    using own_total [OF pr] tot sum_allSides [of ms] by simp
  have gf_ge: "0 \<le> intOf (goalsFor s)"
    unfolding gf using nn(1) by (intro sum_nonneg) (simp add: sidesFor_def)
  have ga_ge: "0 \<le> intOf (goalsAgainst s)"
    unfolding ga using nn(2) by (intro sum_nonneg) (simp add: sidesFor_def)
  from n have F: "goalsFor s = Num (intOf (goalsFor s))"
    and A: "goalsAgainst s = Num (intOf (goalsAgainst s))"
    by (simp_all add: numericStat_def Num_intOf)
  have "goalDifference e = Num (intOf (goalsFor s) - intOf (goalsAgainst s))"
    unfolding e withDerived_def by (subst F, subst A) simp
  moreover have "goalsFor e = Num (intOf (goalsFor s))" using F by (simp add: e withDerived_def)
  moreover have "goalsAgainst e = Num (intOf (goalsAgainst s))"
    using A by (simp add: e withDerived_def)
  ultimately show ?thesis using gf_le ga_le gf_ge ga_ge by blast
qed

text \<open>
  The same holds for what the loop has accumulated after any number of iterations, since
  the matches processed so far are within the exact range as well.
\<close>

lemma safe_after_every_iteration:
  assumes "safeScores (ms @ ms')" and "e \<in> set (calculateTeamStats ms)"
  shows "\<exists>a b. goalsFor e = Num a \<and> goalsAgainst e = Num b \<and> goalDifference e = Num (a - b)
               \<and> 0 \<le> a \<and> a \<le> 4503599627370496 \<and> 0 \<le> b \<and> b \<le> 4503599627370496"
  using safe_entry_exact [OF safeScores_prefix [OF assms(1)] assms(2)] .





section \<open>Ownership in the group routes\<close>

text \<open>
  In \<^verbatim>\<open>src/server.js\<close> every group query carries \<^verbatim>\<open>userId: req.user.sub\<close>: listing
  returns the caller's groups only, and an update or a deletion leaves the groups of every
  other user as they were.
\<close>

lemma find_owner:
  "List.find (\<lambda>g. docId g = ident \<and> userId g = sub) store = Some g \<Longrightarrow>
   g \<in> set store \<and> docId g = ident \<and> userId g = sub"
  by (auto simp: find_Some_iff)

lemma unique_docId:
  "distinct (map docId store) \<Longrightarrow> g \<in> set store \<Longrightarrow> h \<in> set store \<Longrightarrow>
   docId h = docId g \<Longrightarrow> h = g"
  by (metis distinct_map inj_onD)

lemma getGroups_scoped:
  "getGroups sub store = JsonList gs \<Longrightarrow> \<forall>g \<in> set gs. userId g = sub"
  by (auto simp: getGroups_def)

lemma putGroup_scoped:
  assumes "distinct (map docId store)"
  shows "filter (\<lambda>g. userId g \<noteq> sub) (fst (putGroup sub ident body store))
         = filter (\<lambda>g. userId g \<noteq> sub) store"
proof (cases "List.find (\<lambda>g. docId g = ident \<and> userId g = sub) store")
  case None
  then show ?thesis by (simp add: putGroup_def)
next
  case (Some g)
  then have g: "g \<in> set store" "userId g = sub" using find_owner by blast+
  have "\<And>h. h \<in> set store \<Longrightarrow> docId h = docId g \<Longrightarrow> userId h = sub"
    using unique_docId [OF assms g(1)] g(2) by blast
  then have "filter (\<lambda>g. userId g \<noteq> sub) (save g' store) = filter (\<lambda>g. userId g \<noteq> sub) store"
    if "docId g' = docId g" "userId g' = sub" for g'
    using that by (induction store) (auto simp: save_def)
  then show ?thesis using Some g(2) by (simp add: putGroup_def Let_def)
qed

lemma deleteGroup_scoped:
  assumes "distinct (map docId store)"
  shows "filter (\<lambda>g. userId g \<noteq> sub) (fst (deleteGroup sub ident store))
         = filter (\<lambda>g. userId g \<noteq> sub) store"
proof (cases "List.find (\<lambda>g. docId g = ident \<and> userId g = sub) store")
  case None
  then show ?thesis by (simp add: deleteGroup_def)
next
  case (Some g)
  then have g: "g \<in> set store" "userId g = sub" using find_owner by blast+
  have "\<And>h. h \<in> set store \<Longrightarrow> docId h = docId g \<Longrightarrow> userId h = sub"
    using unique_docId [OF assms g(1)] g(2) by blast
  then have "filter (\<lambda>g. userId g \<noteq> sub) (remove g store) = filter (\<lambda>g. userId g \<noteq> sub) store"
    by (induction store) (auto simp: remove_def)
  then show ?thesis using Some by (simp add: deleteGroup_def)
qed

text \<open>
  Claim C8 (no operation invoked by one user can return, modify or delete a record owned by
  a different user), evaluated on the update route of \<^verbatim>\<open>src/unnamed/part_000\<close>: the
  group with \<^verbatim>\<open>_id\<close> 1 belongs to \<open>alice\<close>; a \<^verbatim>\<open>PUT /api/groups/1\<close> with the body
  \<^verbatim>\<open>{"name": "taken"}\<close>, whoever sends it, renames that group.
\<close>

theorem putGroup_part000_other_owner:
  "putGroup_part000 1 \<lparr>bodyName = Some ''taken'', bodyMembers = None, bodyUserId = None\<rparr>
     [\<lparr>userId = ''alice'', docId = 1, name = ''Friday'', members = [(''Ana'', True)]\<rparr>]
   = ([\<lparr>userId = ''alice'', docId = 1, name = ''taken'', members = [(''Ana'', True)]\<rparr>],
      Json \<lparr>userId = ''alice'', docId = 1, name = ''taken'', members = [(''Ana'', True)]\<rparr>)"
  by (simp add: putGroup_part000_def applyUpdate_def save_def)

text \<open>The deletion route of that file deletes the group of \<open>alice\<close> just as well.\<close>

lemma deleteGroup_part000_other_owner:
  "deleteGroup_part000 1
     [\<lparr>userId = ''alice'', docId = 1, name = ''Friday'', members = [(''Ana'', True)]\<rparr>]
   = ([], Message ''Grupo deletado'')"
  by (simp add: deleteGroup_part000_def remove_def)

text \<open>
  The same update sent to the route of \<^verbatim>\<open>src/server.js\<close> by \<open>bob\<close> is answered with
  status 404 and changes nothing.
\<close>

lemma putGroup_other_owner:
  "putGroup ''bob'' 1 \<lparr>bodyName = Some ''taken'', bodyMembers = None, bodyUserId = None\<rparr>
     [\<lparr>userId = ''alice'', docId = 1, name = ''Friday'', members = [(''Ana'', True)]\<rparr>]
   = ([\<lparr>userId = ''alice'', docId = 1, name = ''Friday'', members = [(''Ana'', True)]\<rparr>],
      NotFound)"
  by (simp add: putGroup_def)

end
